theory Spec2Isabelle
  imports Complex_Main "HOL-Library.Char_ord" "HOL-Library.List_Lexorder" "HOL-Library.Multiset"
begin

section \<open>JavaScript values\<close>

text \<open>
  A Number is a finite value, one of the two infinities, or \<open>NaN\<close>. The finite values
  of the language are real numbers (the doubles), so a finite Number is kept as a real;
  both zeros are \<open>Finite 0\<close>.
\<close>

datatype number = Finite real | PosInfinity | NegInfinity | NaN

text \<open>The comparison \<open>n < m\<close> of a counter with a Number: false on \<open>NaN\<close>.\<close>

definition counter_below :: "nat \<Rightarrow> number \<Rightarrow> bool" where
  "counter_below n m =
     (case m of Finite q \<Rightarrow> of_nat n < q | PosInfinity \<Rightarrow> True | NegInfinity \<Rightarrow> False | NaN \<Rightarrow> False)"

text \<open>The comparison \<open>n <= m\<close>, and the least counter that is not below \<open>m\<close> when there
  is one: \<open>m\<close> rounded up, and 0 for a negative \<open>m\<close>, for \<open>NaN\<close> and for \<open>-Infinity\<close>.\<close>

definition counter_within :: "nat \<Rightarrow> number \<Rightarrow> bool" where
  "counter_within n m =
     (case m of Finite q \<Rightarrow> of_nat n \<le> q | PosInfinity \<Rightarrow> True | NegInfinity \<Rightarrow> False | NaN \<Rightarrow> False)"

definition rounded_up :: "number \<Rightarrow> nat" where
  "rounded_up m = (case m of Finite q \<Rightarrow> nat \<lceil>q\<rceil> | _ \<Rightarrow> 0)"

definition negate :: "number \<Rightarrow> number" where
  "negate m =
     (case m of Finite q \<Rightarrow> Finite (- q) | PosInfinity \<Rightarrow> NegInfinity | NegInfinity \<Rightarrow> PosInfinity
      | NaN \<Rightarrow> NaN)"

text \<open>
  A string is a sequence of characters with codes below 256. It is truthy when it is
  not empty; an absent (undefined) field is falsy. \<open>a || b\<close> on such values yields \<open>a\<close>
  when it is truthy and \<open>b\<close> otherwise.
\<close>

definition truthy :: "string option \<Rightarrow> bool" where
  "truthy v = (case v of None \<Rightarrow> False | Some s \<Rightarrow> s \<noteq> [])"

definition or_else :: "string option \<Rightarrow> string \<Rightarrow> string" where
  "or_else v d = (case v of None \<Rightarrow> d | Some s \<Rightarrow> if s \<noteq> [] then s else d)"

text \<open>
  Two corners of the language are left to the engine and are parameters here: the
  Number that stands for a decimal integer above \<open>2^53\<close> (the nearest double, where the
  engine may drop digits after the twentieth), and the text of a finite Number that is
  not an integer of magnitude up to \<open>2^53\<close> (shortest digits, a fraction or an exponent).
  Up to \<open>2^53\<close> every integer is a Number and prints as its decimal digits.
\<close>

record Engine =
  NumberValue :: "nat \<Rightarrow> number"
  NumberToString :: "real \<Rightarrow> string"

definition MAX_SAFE :: nat where
  "MAX_SAFE = 9007199254740992"

text \<open>The white space that \<open>parseInt\<close> skips, among the characters of a string here:
  tab, line feed, vertical tab, form feed, carriage return, space and no-break space.\<close>

definition isWhiteSpace :: "char \<Rightarrow> bool" where
  "isWhiteSpace c =
     (c \<in> set [CHR 0x09, CHR 0x0A, CHR 0x0B, CHR 0x0C, CHR 0x0D, CHR '' '', CHR 0xA0])"

definition digit_value :: "char \<Rightarrow> nat option" where
  "digit_value c = map_of (zip ''0123456789'' [0, 1, 2, 3, 4, 5, 6, 7, 8, 9]) c"

definition isDigit :: "char \<Rightarrow> bool" where
  "isDigit c = (digit_value c \<noteq> None)"

definition digits_value :: "string \<Rightarrow> nat" where
  "digits_value ds = foldl (\<lambda>acc d. 10 * acc + (case digit_value d of None \<Rightarrow> 0 | Some v \<Rightarrow> v)) 0 ds"

text \<open>\<open>parseInt(s, 10)\<close>: leading white space, an optional sign, then the longest run
  of decimal digits; \<open>NaN\<close> when there is no digit.\<close>

definition parseInt :: "Engine \<Rightarrow> string \<Rightarrow> number" where
  "parseInt E s =
     (let s1 = dropWhile isWhiteSpace s;
          negative = (case s1 of c # _ \<Rightarrow> c = CHR ''-'' | [] \<Rightarrow> False);
          s2 = (case s1 of c # r \<Rightarrow> if c = CHR ''-'' \<or> c = CHR ''+'' then r else s1 | [] \<Rightarrow> s1);
          ds = takeWhile isDigit s2;
          magnitude = (if digits_value ds \<le> MAX_SAFE then Finite (of_nat (digits_value ds))
                       else NumberValue E (digits_value ds))
      in if ds = [] then NaN
         else if negative then negate magnitude else magnitude)"

function string_of_nat :: "nat \<Rightarrow> string" where
  "string_of_nat n =
     (if n < 10 then [''0123456789'' ! n] else string_of_nat (n div 10) @ [''0123456789'' ! (n mod 10)])"
  by pat_completeness auto
termination
  by (relation "measure id") auto

declare string_of_nat.simps [simp del]

text \<open>The template literal \<open>`${n}`\<close> on a Number.\<close>

definition number_to_string :: "Engine \<Rightarrow> number \<Rightarrow> string" where
  "number_to_string E n =
     (case n of
        NaN \<Rightarrow> ''NaN''
      | PosInfinity \<Rightarrow> ''Infinity''
      | NegInfinity \<Rightarrow> ''-Infinity''
      | Finite q \<Rightarrow>
          if of_int \<lfloor>q\<rfloor> = q \<and> \<bar>q\<bar> \<le> of_nat MAX_SAFE
          then (if q < 0 then CHR ''-'' # string_of_nat (nat (- \<lfloor>q\<rfloor>)) else string_of_nat (nat \<lfloor>q\<rfloor>))
          else NumberToString E q)"

section \<open>Calendar API helpers (packages/shared/lib/calendar/api.ts)\<close>

subsection \<open>getPaginatedEventsByUID\<close>

text \<open>
  The request object built in every iteration of the loop. \<open>CalendarType\<close> is only set
  when the caller passed one and \<open>RecurrenceID\<close> may be undefined, hence the options.
  The enum \<open>CALENDAR_TYPE\<close> is numeric and declared elsewhere; it is kept as a number.
\<close>

record GetEventByUIDArguments =
  UID :: string
  RecurrenceID :: "int option"
  Page :: nat
  PageSize :: nat
  CalendarType :: "int option"

text \<open>
  What a call of the function that came to an end did: the page requests it issued, in
  order, and how the promise settled (\<open>Inl\<close>: rejected with that error, \<open>Inr\<close>: the
  returned events).
\<close>

record ('x, 'e) fetched =
  requests :: "GetEventByUIDArguments list"
  outcome :: "'x + 'e list"

definition MAX_ITERATIONS :: number where
  "MAX_ITERATIONS = Finite 100"

definition pageSize :: nat where
  "pageSize = 100"

definition build_params :: "string \<Rightarrow> int option \<Rightarrow> int option \<Rightarrow> nat \<Rightarrow> GetEventByUIDArguments" where
  "build_params uid recurrenceID calendarType pageNumber =
     \<lparr>UID = uid, RecurrenceID = recurrenceID, Page = pageNumber, PageSize = pageSize,
      CalendarType = calendarType\<rparr>"

text \<open>
  The \<open>while (pageNumber < max)\<close> loop. \<open>api\<close> is the remote call: it answers a request
  with a page of events or rejects. A rejection leaves the \<open>await\<close> as a throw that
  nothing catches, so the loop ends there with the error. \<open>max\<close> is any Number, so
  the loop need not end: the result is \<open>None\<close> when it does not. Arrays are lists of
  any length here, and the counter is exact with them: it could only lose precision
  at \<open>2^53\<close>, after more full pages than any array holds.
\<close>

partial_function (option) fetch_loop ::
  "(GetEventByUIDArguments \<Rightarrow> 'x + 'e list) \<Rightarrow> string \<Rightarrow> int option \<Rightarrow> int option \<Rightarrow> number \<Rightarrow>
   nat \<Rightarrow> 'e list \<Rightarrow> GetEventByUIDArguments list \<Rightarrow> ('x, 'e) fetched option" where
  "fetch_loop api uid recurrenceID calendarType maxi pageNumber result reqs =
     (if counter_below pageNumber maxi then
        (let params = build_params uid recurrenceID calendarType pageNumber in
         (case api params of
            Inl err \<Rightarrow> Some \<lparr>requests = reqs @ [params], outcome = Inl err\<rparr>
          | Inr events \<Rightarrow>
              (if length events \<noteq> pageSize
               then Some \<lparr>requests = reqs @ [params], outcome = Inr (result @ events)\<rparr>
               else fetch_loop api uid recurrenceID calendarType maxi (pageNumber + 1)
                      (result @ events) (reqs @ [params]))))
      else Some \<lparr>requests = reqs, outcome = Inr result\<rparr>)"

text \<open>The exported function; \<open>max\<close> defaults to \<open>MAX_ITERATIONS\<close> when it is not passed.\<close>

definition getPaginatedEventsByUID ::
  "(GetEventByUIDArguments \<Rightarrow> 'x + 'e list) \<Rightarrow> string \<Rightarrow> int option \<Rightarrow> number option \<Rightarrow> int option \<Rightarrow>
   ('x, 'e) fetched option" where
  "getPaginatedEventsByUID api uid recurrenceID maxo calendarType =
     fetch_loop api uid recurrenceID calendarType
       (case maxo of None \<Rightarrow> MAX_ITERATIONS | Some m \<Rightarrow> m) 0 [] []"

text \<open>
  A server that answers page \<open>i\<close> with the \<open>i\<close>-th element of a fixed sequence of pages
  (and with an empty page beyond it); used to state properties over response sequences.
\<close>

definition serve_pages :: "'e list list \<Rightarrow> GetEventByUIDArguments \<Rightarrow> 'x + 'e list" where
  "serve_pages ps params = (if Page params < length ps then Inr (ps ! Page params) else Inr [])"

text \<open>Two more servers for concrete runs: one whose every page is full, and one that
  serves a fixed sequence of pages and rejects every request beyond it.\<close>

definition full_pages :: "'e \<Rightarrow> GetEventByUIDArguments \<Rightarrow> 'x + 'e list" where
  "full_pages e params = Inr (replicate 100 e)"

definition serve_then_fail :: "'e list list \<Rightarrow> 'x \<Rightarrow> GetEventByUIDArguments \<Rightarrow> 'x + 'e list" where
  "serve_then_fail ps err params = (if Page params < length ps then Inr (ps ! Page params) else Inl err)"

subsection \<open>reformatApiErrorMessage\<close>

text \<open>
  Strings are sequences of characters; \<open>toLowerCase\<close> maps the letters A to Z to a to z
  and leaves every other character alone (the characters of the suffix looked for are
  ASCII, so only this part of the mapping can make the test succeed).
\<close>

definition toLowerCase_char :: "char \<Rightarrow> char" where
  "toLowerCase_char c =
     (case map_of (zip ''ABCDEFGHIJKLMNOPQRSTUVWXYZ'' ''abcdefghijklmnopqrstuvwxyz'') c of
        Some l \<Rightarrow> l
      | None \<Rightarrow> c)"

definition toLowerCase :: "string \<Rightarrow> string" where
  "toLowerCase s = map toLowerCase_char s"

definition endsWith :: "string \<Rightarrow> string \<Rightarrow> bool" where
  "endsWith s suffix = (length suffix \<le> length s \<and> drop (length s - length suffix) s = suffix)"

text \<open>
  \<open>String.prototype.slice(start, end)\<close>: a negative index counts from the end, both
  are clamped to the string, and the result is empty when the range is.
\<close>

definition slice_index :: "nat \<Rightarrow> int \<Rightarrow> nat" where
  "slice_index len i = (if i < 0 then nat (max (int len + i) 0) else min (nat i) len)"

definition slice :: "string \<Rightarrow> int \<Rightarrow> int \<Rightarrow> string" where
  "slice s start fin =
     (let from = slice_index (length s) start; to = slice_index (length s) fin
      in take (to - from) (drop from s))"

definition reformatApiErrorMessage :: "string \<Rightarrow> string" where
  "reformatApiErrorMessage message =
     (if endsWith (toLowerCase message) ''. please try again''
      then slice message 0 (- 18)
      else message)"

text \<open>
  The specification's reading of the test, for comparison with the code's: the last
  characters of the string, as many as the suffix has, equal the suffix up to case.
\<close>

definition ends_with_ignoring_case :: "string \<Rightarrow> string \<Rightarrow> bool" where
  "ends_with_ignoring_case s suffix =
     (length suffix \<le> length s \<and> toLowerCase (drop (length s - length suffix) s) = toLowerCase suffix)"

section \<open>Mail import wizard (packages/activation/mail/modals/ImportMailModal.tsx)\<close>

subsection \<open>Data\<close>

datatype MailImportStep = START | PREPARE | STARTED

datatype AuthenticationMethod = PLAIN | OAUTH

text \<open>The providers the wizard knows by name; any other value of the enum is \<open>OTHER_PROVIDER\<close>.\<close>

datatype NON_OAUTH_PROVIDER = OUTLOOK | YAHOO | OTHER_PROVIDER string

datatype IMPORT_ERROR = AUTHENTICATION_ERROR | IMAP_CONNECTION_ERROR | RATE_LIMIT_EXCEEDED

datatype TIME_PERIOD = BIG_BANG | LAST_YEAR | LAST_3_MONTHS | LAST_MONTH

text \<open>
  A folder of the remote mailbox. \<open>DestinationFolder\<close> is optional; the fields the wizard
  itself never reads are left out.
\<close>

record ImportedMailFolder =
  Source :: string
  DestinationFolder :: "string option"

record MailImportMapping =
  MappingSource :: string
  Destinations :: string
  checked :: bool

record MailImportPayload =
  AddressID :: string
  Mapping :: "MailImportMapping list"
  CustomFields :: int
  StartTime :: "int option"

record ImporterFromServer =
  Email :: string
  ID :: string
  ImapHost :: string
  ImapPort :: number
  Sasl :: AuthenticationMethod

text \<open>\<open>currentImport\<close>, of type \<open>NormalizedImporter\<close> (declared elsewhere): the four fields
  read here, each possibly absent.\<close>

record NormalizedImporter =
  currentID :: "string option"
  currentEmail :: "string option"
  currentImapHost :: "string option"
  currentImapPort :: "string option"

text \<open>The \<open>Authentication\<close> object of the authentication-method lookup.\<close>

record Authentication =
  authImapHost :: "string option"
  authImapPort :: "string option"
  authImporterID :: "string option"

text \<open>
  A rejected call: the error object, of which the wizard reads \<open>data\<close> only, with the
  server's \<open>Code\<close> and its message \<open>Error\<close>; \<open>data\<close> may be absent.
\<close>

record api_error_data =
  Code :: int
  Error :: string

record error =
  data :: "api_error_data option"

record ImportMailModalModel =
  step :: MailImportStep
  importID :: string
  email :: string
  password :: string
  imap :: string
  port :: string
  errorCode :: int
  errorLabel :: string
  providerFolders :: "ImportedMailFolder list"
  selectedPeriod :: TIME_PERIOD
  payload :: MailImportPayload
  isPayloadInvalid :: bool

text \<open>The component's props and the one fact about the user it reads.\<close>

record Props =
  currentImport :: "NormalizedImporter option"
  addresses :: "string list"
  provider :: "NON_OAUTH_PROVIDER option"
  userIsFree :: bool

text \<open>
  What the component imports from modules that are not part of this development: the
  tables \<open>IMAPS\<close> and \<open>PORTS\<close>, the numeric values of \<open>IMPORT_ERROR\<close> and the helper
  \<open>dateToTimestamp\<close>; and the engine it runs on. They are parameters of everything below.
\<close>

record Imports =
  IMAPS :: "NON_OAUTH_PROVIDER \<Rightarrow> string"
  PORTS :: "NON_OAUTH_PROVIDER \<Rightarrow> string"
  error_code :: "IMPORT_ERROR \<Rightarrow> int"
  dateToTimestamp :: "int \<Rightarrow> int"
  engine :: Engine

subsection \<open>Requests, responses and effects\<close>

text \<open>
  The requests the wizard sends. \<open>CreateImport\<close> carries \<open>Account\<close>, \<open>ImapHost\<close>,
  \<open>ImapPort\<close>, \<open>Sasl\<close>, \<open>Code\<close>, \<open>AllowSelfSigned\<close> and the \<open>silence\<close> flag;
  \<open>GetMailImportData\<close> the importer's id, the \<open>Code\<close> and the \<open>silence\<close> flag;
  \<open>StartImportTask\<close> the \<open>ImporterID\<close>, the payload with its \<open>StartTime\<close> converted and
  the checked mappings as pairs of \<open>Source\<close> and \<open>Destinations\<close>;
  \<open>UpdateImport\<close> the id, \<open>Account\<close>, \<open>Code\<close>, \<open>ImapHost\<close>, \<open>ImapPort\<close> and \<open>Sasl\<close>.
\<close>

datatype request =
    GetAuthenticationMethod string
  | GetImport string
  | GetMailImportData string string bool
  | CreateImport string string number AuthenticationMethod string int bool
  | StartImportTask string string int "int option" "(string \<times> string) list"
  | UpdateImport string string string string number AuthenticationMethod
  | ResumeImport string

datatype response =
    AuthenticationResponse Authentication
  | ImporterResponse ImporterFromServer
  | FoldersResponse "ImportedMailFolder list option"
  | ImporterIDResponse string
  | Done

text \<open>
  The remote side as one handler run sees it: an answer or a rejection for each call,
  and the outcome of the event manager's \<open>call()\<close>.
\<close>

record server =
  getAuthenticationMethod :: "string \<Rightarrow> error + Authentication"
  getImport :: "string \<Rightarrow> error + ImporterFromServer"
  getMailImportData :: "string \<Rightarrow> string \<Rightarrow> error + ImportedMailFolder list option"
  createImport :: "string \<Rightarrow> string \<Rightarrow> number \<Rightarrow> string \<Rightarrow> int \<Rightarrow> error + string"
  startImportTask :: "string \<Rightarrow> error + unit"
  updateImport :: "string \<Rightarrow> error + unit"
  resumeImport :: "string \<Rightarrow> error + unit"
  call :: "error option"

datatype callback = OnCloseCallback

text \<open>The confirmation dialog of \<open>handleCancel\<close>: its title and what confirming runs.\<close>

record ConfirmModal =
  title :: string
  onConfirm :: callback

datatype effect =
    Api request "error + response"
  | EventManagerCall
  | ConsoleError "api_error_data option"
  | ErrorHandler error
  | OnClose
  | CreateModal ConfirmModal

text \<open>
  The component: its state, the state that the memoised Cancel button still sees, and
  everything the component has done to the outside so far.

  The Cancel button is built by \<open>useMemo(..., [modalModel.step])\<close>: it is rebuilt only in a
  render whose \<open>step\<close> differs from that of the render before, and until then its
  \<open>onClick\<close> is the \<open>handleCancel\<close> of the render that built it, which reads the
  \<open>modalModel\<close> of that render. \<open>cancelMemo\<close> is that \<open>modalModel\<close>.
\<close>

record wizard =
  modalModel :: ImportMailModalModel
  cancelMemo :: ImportMailModalModel
  effects :: "effect list"

text \<open>The render that follows a change of the state.\<close>

definition rerender :: "wizard \<Rightarrow> wizard" where
  "rerender w = (if step (modalModel w) \<noteq> step (cancelMemo w) then w\<lparr>cancelMemo := modalModel w\<rparr> else w)"

definition setModalModel :: "(ImportMailModalModel \<Rightarrow> ImportMailModalModel) \<Rightarrow> wizard \<Rightarrow> wizard" where
  "setModalModel f w = w\<lparr>modalModel := f (modalModel w)\<rparr>"

definition emit :: "effect \<Rightarrow> wizard \<Rightarrow> wizard" where
  "emit e w = w\<lparr>effects := effects w @ [e]\<rparr>"

definition api_requests :: "effect list \<Rightarrow> request list" where
  "api_requests es = concat (map (\<lambda>e. case e of Api rq _ \<Rightarrow> [rq] | _ \<Rightarrow> []) es)"

text \<open>What a handler run added to the effects of the wizard it started from.\<close>

definition new_effects :: "wizard \<Rightarrow> wizard \<Rightarrow> effect list" where
  "new_effects w w' = drop (length (effects w)) (effects w')"

subsection \<open>Sorting the folders\<close>

definition hasDestination :: "ImportedMailFolder \<Rightarrow> bool" where
  "hasDestination f = truthy (DestinationFolder f)"

definition destinationFoldersFirst :: "ImportedMailFolder \<Rightarrow> ImportedMailFolder \<Rightarrow> int" where
  "destinationFoldersFirst a b =
     (if hasDestination a \<and> hasDestination b then 0
      else if hasDestination a \<and> \<not> hasDestination b then - 1
      else if \<not> hasDestination a \<and> hasDestination b then 1
      else if Source a < Source b then - 1
      else if Source a > Source b then 1
      else 0)"

text \<open>
  \<open>Array.prototype.sort\<close> with a comparator is a stable sort. It is computed here by
  insertion from the right end: an element goes in front of the first element it does
  not compare greater than, so elements that compare equal keep their order.
\<close>

fun insert_sorted :: "('a \<Rightarrow> 'a \<Rightarrow> int) \<Rightarrow> 'a \<Rightarrow> 'a list \<Rightarrow> 'a list" where
  "insert_sorted cmp x [] = [x]"
| "insert_sorted cmp x (y # ys) = (if cmp x y \<le> 0 then x # y # ys else y # insert_sorted cmp x ys)"

definition array_sort :: "('a \<Rightarrow> 'a \<Rightarrow> int) \<Rightarrow> 'a list \<Rightarrow> 'a list" where
  "array_sort cmp xs = foldr (insert_sorted cmp) xs []"

subsection \<open>Initial state\<close>

definition getDefaultImap :: "Imports \<Rightarrow> NON_OAUTH_PROVIDER option \<Rightarrow> string" where
  "getDefaultImap I p =
     (case p of
        Some OUTLOOK \<Rightarrow> IMAPS I OUTLOOK
      | Some YAHOO \<Rightarrow> IMAPS I YAHOO
      | _ \<Rightarrow> [])"

definition getDefaultPort :: "Imports \<Rightarrow> NON_OAUTH_PROVIDER option \<Rightarrow> string" where
  "getDefaultPort I p =
     (case p of
        Some OUTLOOK \<Rightarrow> PORTS I OUTLOOK
      | Some YAHOO \<Rightarrow> PORTS I YAHOO
      | _ \<Rightarrow> [])"

definition isReconnectMode :: "Props \<Rightarrow> bool" where
  "isReconnectMode P = (currentImport P \<noteq> None)"

definition defaultPeriod :: "Props \<Rightarrow> TIME_PERIOD" where
  "defaultPeriod P = (if userIsFree P then LAST_3_MONTHS else BIG_BANG)"

text \<open>\<open>currentImport?.field\<close>: absent when there is no current import.\<close>

definition current :: "Props \<Rightarrow> (NormalizedImporter \<Rightarrow> string option) \<Rightarrow> string option" where
  "current P field = (case currentImport P of None \<Rightarrow> None | Some c \<Rightarrow> field c)"

text \<open>
  The argument of \<open>useState\<close>. Reading \<open>addresses[0].ID\<close> throws when there is no
  address, and then there is no initial state.
\<close>

definition initialModalModel :: "Imports \<Rightarrow> Props \<Rightarrow> ImportMailModalModel option" where
  "initialModalModel I P =
     (case addresses P of
        [] \<Rightarrow> None
      | address # _ \<Rightarrow>
          Some \<lparr>step = START,
                importID = or_else (current P currentID) [],
                email = or_else (current P currentEmail) [],
                password = [],
                imap = or_else (current P currentImapHost) (getDefaultImap I (provider P)),
                port = or_else (current P currentImapPort) (getDefaultPort I (provider P)),
                errorCode = 0,
                errorLabel = [],
                providerFolders = [],
                selectedPeriod = defaultPeriod P,
                payload = \<lparr>AddressID = address, Mapping = [], CustomFields = 0, StartTime = None\<rparr>,
                isPayloadInvalid = False\<rparr>)"

subsection \<open>Handlers\<close>

definition hasIMAPError :: "Imports \<Rightarrow> ImportMailModalModel \<Rightarrow> bool" where
  "hasIMAPError I m = (errorCode m = error_code I IMAP_CONNECTION_ERROR)"

text \<open>\<open>checkAuth\<close> does not catch: a rejected lookup is returned beside the wizard.\<close>

definition checkAuth :: "server \<Rightarrow> wizard \<Rightarrow> wizard \<times> error option" where
  "checkAuth srv w =
     (let answer = getAuthenticationMethod srv (email (modalModel w));
          w1 = emit (Api (GetAuthenticationMethod (email (modalModel w)))
                      (map_sum id AuthenticationResponse answer)) w
      in case answer of
           Inl err \<Rightarrow> (w1, Some err)
         | Inr auth \<Rightarrow>
             (setModalModel (\<lambda>m. m\<lparr>importID := or_else (authImporterID auth) (importID m),
                                    imap := or_else (authImapHost auth) (imap m),
                                    port := or_else (authImapPort auth) (port m)\<rparr>) w1,
              None))"

definition moveToPrepareStep ::
  "Imports \<Rightarrow> ImporterFromServer \<Rightarrow> ImportedMailFolder list \<Rightarrow> wizard \<Rightarrow> wizard" where
  "moveToPrepareStep I Importer folders w =
     setModalModel (\<lambda>m. m\<lparr>providerFolders := array_sort destinationFoldersFirst folders,
                            importID := ID Importer,
                            email := Email Importer,
                            imap := ImapHost Importer,
                            port := number_to_string (engine I) (ImapPort Importer),
                            step := PREPARE,
                            errorCode := 0,
                            errorLabel := []\<rparr>) w"

text \<open>The codes that are shown inline, in the order of the array literal.\<close>

definition inline_codes :: "Imports \<Rightarrow> int list" where
  "inline_codes I =
     [error_code I AUTHENTICATION_ERROR, error_code I IMAP_CONNECTION_ERROR, error_code I RATE_LIMIT_EXCEEDED]"

definition handleSubmitStartError :: "Imports \<Rightarrow> error \<Rightarrow> wizard \<Rightarrow> wizard" where
  "handleSubmitStartError I err w =
     (let d = (case data err of None \<Rightarrow> \<lparr>Code = 0, Error = []\<rparr> | Some d \<Rightarrow> d);
          w1 = emit (ConsoleError (data err)) w
      in if Code d \<in> set (inline_codes I)
         then setModalModel (\<lambda>m. m\<lparr>errorCode := Code d, errorLabel := Error d\<rparr>) w1
         else emit (ErrorHandler err) w1)"

text \<open>
  \<open>submitAuthentication\<close>. Both \<open>try\<close> blocks hand whatever is thrown to
  \<open>handleSubmitStartError\<close>, so nothing escapes. \<open>Folders\<close> defaults to the empty list.
\<close>

definition submitAuthentication :: "Imports \<Rightarrow> server \<Rightarrow> wizard \<Rightarrow> wizard" where
  "submitAuthentication I srv w =
     (let m = modalModel w in
      if importID m \<noteq> [] then
        (let w1 = emit (Api (GetImport (importID m)) (map_sum id ImporterResponse (getImport srv (importID m)))) w in
         case getImport srv (importID m) of
           Inl err \<Rightarrow> handleSubmitStartError I err w1
         | Inr Importer \<Rightarrow>
             (let w2 = emit (Api (GetMailImportData (ID Importer) (password m) True)
                          (map_sum id FoldersResponse (getMailImportData srv (ID Importer) (password m)))) w1 in
              case getMailImportData srv (ID Importer) (password m) of
                Inl err \<Rightarrow> handleSubmitStartError I err w2
              | Inr Folders \<Rightarrow>
                  moveToPrepareStep I Importer (case Folders of None \<Rightarrow> [] | Some fs \<Rightarrow> fs) w2))
      else if imap m \<noteq> [] \<and> port m \<noteq> [] then
        (let allowSelfSigned = (if hasIMAPError I m then 1 else 0);
             created = createImport srv (email m) (imap m) (parseInt (engine I) (port m)) (password m)
                         allowSelfSigned;
             w1 = emit (Api (CreateImport (email m) (imap m) (parseInt (engine I) (port m)) PLAIN (password m)
                               allowSelfSigned True)
                          (map_sum id ImporterIDResponse created)) w in
         case created of
           Inl err \<Rightarrow> handleSubmitStartError I err w1
         | Inr ImporterID \<Rightarrow>
             (let w2 = emit EventManagerCall w1 in
              case call srv of
                Some err \<Rightarrow> handleSubmitStartError I err w2
              | None \<Rightarrow>
                  (let w3 = emit (Api (GetMailImportData ImporterID (password m) False)
                               (map_sum id FoldersResponse (getMailImportData srv ImporterID (password m)))) w2 in
                   case getMailImportData srv ImporterID (password m) of
                     Inl err \<Rightarrow> handleSubmitStartError I err w3
                   | Inr Folders \<Rightarrow>
                       moveToPrepareStep I
                         \<lparr>Email = email m, ID = ImporterID, ImapHost = imap m,
                          ImapPort = parseInt (engine I) (port m), Sasl = PLAIN\<rparr>
                         (case Folders of None \<Rightarrow> [] | Some fs \<Rightarrow> fs) w3)))
      else setModalModel (\<lambda>m. m\<lparr>imap := []\<rparr>) w)"

definition formatImportPayload ::
  "Imports \<Rightarrow> ImportMailModalModel \<Rightarrow> string \<times> string \<times> int \<times> int option \<times> (string \<times> string) list" where
  "formatImportPayload I m =
     (importID m, AddressID (payload m), CustomFields (payload m),
      map_option (dateToTimestamp I) (StartTime (payload m)),
      map (\<lambda>mp. (MappingSource mp, Destinations mp)) (filter checked (Mapping (payload m))))"

text \<open>\<open>launchImport\<close> and \<open>resumeImporter\<close> do not catch either.\<close>

definition launchImport :: "Imports \<Rightarrow> server \<Rightarrow> wizard \<Rightarrow> wizard \<times> error option" where
  "launchImport I srv w =
     (case formatImportPayload I (modalModel w) of
        (importerID, addressID, customFields, startTime, mapping) \<Rightarrow>
          (let w1 = emit (Api (StartImportTask importerID addressID customFields startTime mapping)
                       (map_sum id (\<lambda>_. Done) (startImportTask srv importerID))) w in
           case startImportTask srv importerID of
             Inl err \<Rightarrow> (w1, Some err)
           | Inr _ \<Rightarrow>
               (let w2 = emit EventManagerCall w1 in
                case call srv of
                  Some err \<Rightarrow> (w2, Some err)
                | None \<Rightarrow> (setModalModel (\<lambda>m. m\<lparr>step := STARTED\<rparr>) w2, None))))"

definition resumeImporter :: "Imports \<Rightarrow> server \<Rightarrow> wizard \<Rightarrow> wizard \<times> error option" where
  "resumeImporter I srv w =
     (let m = modalModel w;
          w1 = emit (Api (UpdateImport (importID m) (email m) (password m) (imap m)
                            (parseInt (engine I) (port m)) PLAIN)
                      (map_sum id (\<lambda>_. Done) (updateImport srv (importID m)))) w in
      case updateImport srv (importID m) of
        Inl err \<Rightarrow> (w1, Some err)
      | Inr _ \<Rightarrow>
          (let w2 = emit (Api (ResumeImport (importID m))
                        (map_sum id (\<lambda>_. Done) (resumeImport srv (importID m)))) w1 in
           case resumeImport srv (importID m) of
             Inl err \<Rightarrow> (w2, Some err)
           | Inr _ \<Rightarrow>
               (let w3 = emit EventManagerCall w2 in
                case call srv of
                  Some err \<Rightarrow> (w3, Some err)
                | None \<Rightarrow> (emit OnClose w3, None))))"

definition quitImportModal :: ConfirmModal where
  "quitImportModal = \<lparr>title = ''Quit import?'', onConfirm = OnCloseCallback\<rparr>"

text \<open>
  \<open>handleCancel\<close> is a closure of the render that made it: it decides on the
  \<open>modalModel\<close> of that render, the argument \<open>m\<close>, and acts on the component as it is
  when it runs.
\<close>

definition handleCancel :: "Props \<Rightarrow> ImportMailModalModel \<Rightarrow> wizard \<Rightarrow> wizard" where
  "handleCancel P m w =
     (if email m = [] \<or> step m = STARTED \<or> isReconnectMode P
      then emit OnClose w
      else emit (CreateModal quitImportModal) w)"

text \<open>
  The two ways to cancel. \<open>FormModal\<close> gets \<open>onClose={handleCancel}\<close> anew in every render,
  so closing the modal runs the \<open>handleCancel\<close> of the current state. The Cancel button
  of the footer runs the \<open>handleCancel\<close> it was built with.
\<close>

definition closeRequested :: "Props \<Rightarrow> wizard \<Rightarrow> wizard" where
  "closeRequested P w = handleCancel P (modalModel w) w"

definition cancelClicked :: "Props \<Rightarrow> wizard \<Rightarrow> wizard" where
  "cancelClicked P w = handleCancel P (cancelMemo w) w"

text \<open>Pressing the dialog's confirm button runs its \<open>onConfirm\<close>.\<close>

definition confirm :: "ConfirmModal \<Rightarrow> wizard \<Rightarrow> wizard" where
  "confirm modal w = (case onConfirm modal of OnCloseCallback \<Rightarrow> emit OnClose w)"

definition handleSubmit :: "Imports \<Rightarrow> Props \<Rightarrow> server \<Rightarrow> wizard \<Rightarrow> wizard \<times> error option" where
  "handleSubmit I P srv w =
     (case step (modalModel w) of
        START \<Rightarrow> if isReconnectMode P then resumeImporter I srv w else (submitAuthentication I srv w, None)
      | PREPARE \<Rightarrow> launchImport I srv w
      | STARTED \<Rightarrow> (emit OnClose w, None))"

subsection \<open>The states the wizard can reach\<close>

text \<open>
  The wizard starts in its initial state; from then on its state changes by the
  authentication lookup, by a submit, and by the step components, which call
  \<open>updateModalModel\<close> with a model of their own making; a render follows each of these.
  Closing the modal, a click on Cancel and the confirmation of the dialog act on the
  outside only. The step components are not part of this development: \<open>edits\<close> is the
  relation between the model they are given and a model they may set. Every call may
  find the remote side in another state.
\<close>

inductive reachable :: "Imports \<Rightarrow> Props \<Rightarrow> (ImportMailModalModel \<Rightarrow> ImportMailModalModel \<Rightarrow> bool) \<Rightarrow> wizard \<Rightarrow> bool"
  for I :: Imports and P :: Props and edits :: "ImportMailModalModel \<Rightarrow> ImportMailModalModel \<Rightarrow> bool" where
  opened: "initialModalModel I P = Some m \<Longrightarrow>
    reachable I P edits \<lparr>modalModel = m, cancelMemo = m, effects = []\<rparr>"
| edited: "reachable I P edits w \<Longrightarrow> edits (modalModel w) m' \<Longrightarrow>
    reachable I P edits (rerender (w\<lparr>modalModel := m'\<rparr>))"
| looked_up: "reachable I P edits w \<Longrightarrow> reachable I P edits (rerender (fst (checkAuth srv w)))"
| submitted: "reachable I P edits w \<Longrightarrow> reachable I P edits (rerender (fst (handleSubmit I P srv w)))"
| close_requested: "reachable I P edits w \<Longrightarrow> reachable I P edits (closeRequested P w)"
| cancel_clicked: "reachable I P edits w \<Longrightarrow> reachable I P edits (cancelClicked P w)"
| confirmed: "reachable I P edits w \<Longrightarrow> CreateModal modal \<in> set (effects w) \<Longrightarrow>
    reachable I P edits (confirm modal w)"

text \<open>The form fields the user types into and the choices of the prepare step: an edit
  that changes nothing else.\<close>

definition form_edit :: "ImportMailModalModel \<Rightarrow> ImportMailModalModel \<Rightarrow> bool" where
  "form_edit m m' =
     (m' = m\<lparr>email := email m', password := password m', imap := imap m', port := port m',
             selectedPeriod := selectedPeriod m', payload := payload m',
             isPayloadInvalid := isPayloadInvalid m'\<rparr>)"

text \<open>An import job is known to exist on the server: the wizard was opened on one, or a
  call has returned the id of one.\<close>

definition opened_with_import :: "Props \<Rightarrow> bool" where
  "opened_with_import P = truthy (current P currentID)"

definition returns_ImporterID :: "effect \<Rightarrow> bool" where
  "returns_ImporterID e =
     (case e of
        Api (CreateImport _ _ _ _ _ _ _) (Inr (ImporterIDResponse i)) \<Rightarrow> i \<noteq> []
      | Api (GetAuthenticationMethod _) (Inr (AuthenticationResponse a)) \<Rightarrow> truthy (authImporterID a)
      | _ \<Rightarrow> False)"

definition is_CreateImport :: "request \<Rightarrow> bool" where
  "is_CreateImport rq = (case rq of CreateImport _ _ _ _ _ _ _ \<Rightarrow> True | _ \<Rightarrow> False)"

subsection \<open>Concrete runs\<close>

text \<open>An engine for the runs below. None of them reaches either corner that an engine
  decides; this one answers \<open>Infinity\<close> and the empty text there.\<close>

definition example_engine :: Engine where
  "example_engine = \<lparr>NumberValue = (\<lambda>_. PosInfinity), NumberToString = (\<lambda>_. [])\<rparr>"

definition example_imports :: Imports where
  "example_imports =
     \<lparr>IMAPS = (\<lambda>p. case p of YAHOO \<Rightarrow> ''export.imap.mail.yahoo.com'' | OUTLOOK \<Rightarrow> ''outlook.office365.com'' | _ \<Rightarrow> []),
      PORTS = (\<lambda>p. case p of YAHOO \<Rightarrow> ''993'' | OUTLOOK \<Rightarrow> ''993'' | _ \<Rightarrow> []),
      error_code = (\<lambda>c. case c of AUTHENTICATION_ERROR \<Rightarrow> 2901 | IMAP_CONNECTION_ERROR \<Rightarrow> 2900
                        | RATE_LIMIT_EXCEEDED \<Rightarrow> 429),
      dateToTimestamp = (\<lambda>d. d div 1000),
      engine = example_engine\<rparr>"

definition example_props :: "NormalizedImporter option \<Rightarrow> NON_OAUTH_PROVIDER option \<Rightarrow> Props" where
  "example_props cur p = \<lparr>currentImport = cur, addresses = [''address-1''], provider = p, userIsFree = True\<rparr>"

definition example_folders :: "ImportedMailFolder list" where
  "example_folders =
     [\<lparr>Source = ''Work'', DestinationFolder = None\<rparr>,
      \<lparr>Source = ''Sent'', DestinationFolder = Some ''Sent''\<rparr>,
      \<lparr>Source = ''Archive'', DestinationFolder = None\<rparr>,
      \<lparr>Source = ''INBOX'', DestinationFolder = Some ''Inbox''\<rparr>]"

definition example_importer :: ImporterFromServer where
  "example_importer =
     \<lparr>Email = ''user@example.org'', ID = ''imp1'', ImapHost = ''imap.example.org'',
      ImapPort = Finite 993, Sasl = PLAIN\<rparr>"


text \<open>A remote side on which the import \<open>imp1\<close> exists and on which a new import gets
  the id \<open>imp2\<close>, and one that rejects every call with a given error.\<close>

definition example_server :: server where
  "example_server =
     \<lparr>getAuthenticationMethod =
        (\<lambda>_. Inr \<lparr>authImapHost = Some ''imap.example.org'', authImapPort = Some ''993'',
                  authImporterID = Some ''imp1''\<rparr>),
      getImport = (\<lambda>_. Inr example_importer),
      getMailImportData = (\<lambda>_ _. Inr (Some example_folders)),
      createImport = (\<lambda>_ _ _ _ _. Inr ''imp2''),
      startImportTask = (\<lambda>_. Inr ()),
      updateImport = (\<lambda>_. Inr ()),
      resumeImport = (\<lambda>_. Inr ()),
      call = None\<rparr>"


text \<open>The wizard as it opens, when it can.\<close>

definition open_wizard :: "Imports \<Rightarrow> Props \<Rightarrow> wizard option" where
  "open_wizard I P =
     map_option (\<lambda>m. \<lparr>modalModel = m, cancelMemo = m, effects = []\<rparr>) (initialModalModel I P)"

text \<open>The user types an address and a password, or fills in the whole form; a render
  follows.\<close>

definition typed :: "string \<Rightarrow> string \<Rightarrow> wizard \<Rightarrow> wizard" where
  "typed address secret w = rerender (setModalModel (\<lambda>m. m\<lparr>email := address, password := secret\<rparr>) w)"


text \<open>The wizard opened without a current import and without a provider, the wizard
  opened on the existing import \<open>imp1\<close>, a wizard that knows the import \<open>imp1\<close> from
  the authentication lookup, and a wizard with the whole form filled in by hand.\<close>

definition example_model :: ImportMailModalModel where
  "example_model =
     \<lparr>step = START, importID = [], email = [], password = [], imap = [], port = [],
      errorCode = 0, errorLabel = [], providerFolders = [], selectedPeriod = LAST_3_MONTHS,
      payload = \<lparr>AddressID = ''address-1'', Mapping = [], CustomFields = 0, StartTime = None\<rparr>,
      isPayloadInvalid = False\<rparr>"

definition example_start :: wizard where
  "example_start = \<lparr>modalModel = example_model, cancelMemo = example_model, effects = []\<rparr>"

definition example_current :: NormalizedImporter where
  "example_current =
     \<lparr>currentID = Some ''imp1'', currentEmail = Some ''user@example.org'',
      currentImapHost = Some ''imap.example.org'', currentImapPort = Some ''993''\<rparr>"

definition example_reconnect_model :: ImportMailModalModel where
  "example_reconnect_model =
     \<lparr>step = START, importID = ''imp1'', email = ''user@example.org'', password = [],
      imap = ''imap.example.org'', port = ''993'',
      errorCode = 0, errorLabel = [], providerFolders = [], selectedPeriod = LAST_3_MONTHS,
      payload = \<lparr>AddressID = ''address-1'', Mapping = [], CustomFields = 0, StartTime = None\<rparr>,
      isPayloadInvalid = False\<rparr>"

definition example_reconnect :: wizard where
  "example_reconnect =
     \<lparr>modalModel = example_reconnect_model, cancelMemo = example_reconnect_model, effects = []\<rparr>"

definition example_known :: wizard where
  "example_known =
     rerender (fst (checkAuth example_server (typed ''user@example.org'' ''secret'' example_start)))"


definition job_known :: "Props \<Rightarrow> effect list \<Rightarrow> bool" where
  "job_known P es = (opened_with_import P \<or> list_ex returns_ImporterID es)"


section \<open>Properties of the calendar helpers\<close>

subsection \<open>Counters and Numbers\<close>

lemma counter_below_mono: "counter_below k m \<Longrightarrow> p \<le> k \<Longrightarrow> counter_below p m"
  by (cases m) (auto simp: counter_below_def)

lemma counter_below_rounded_up:
  "m \<noteq> PosInfinity \<Longrightarrow> counter_below p m \<longleftrightarrow> p < rounded_up m"
proof (cases m)
  case (Finite q)
  have "real p < q \<longleftrightarrow> int p < \<lceil>q\<rceil>"
    by (simp add: less_ceiling_iff)
  then show ?thesis
    by (auto simp: Finite counter_below_def rounded_up_def)
qed (simp_all add: counter_below_def rounded_up_def)

lemma counter_within_below: "counter_within (Suc k) m \<Longrightarrow> counter_below k m"
  by (cases m) (auto simp: counter_within_def counter_below_def)

subsection \<open>Runs of the loop\<close>

text \<open>Full pages up to page \<open>k\<close>, which is short: the loop ends there.\<close>

lemma fetch_loop_short:
  assumes "p \<le> k" "counter_below k maxi"
    and "\<forall>i. p \<le> i \<and> i < k \<longrightarrow> api (build_params uid rid ct i) = Inr (f i) \<and> length (f i) = pageSize"
    and "api (build_params uid rid ct k) = Inr (f k)" "length (f k) \<noteq> pageSize"
  shows "fetch_loop api uid rid ct maxi p res reqs =
    Some \<lparr>requests = reqs @ map (build_params uid rid ct) [p..<Suc k],
          outcome = Inr (res @ concat (map f [p..<Suc k]))\<rparr>"
  using assms
proof (induction "k - p" arbitrary: p res reqs)
  case 0
  then have pk: "p = k" by simp
  show ?case using 0 unfolding pk
    by (subst fetch_loop.simps) (simp add: Let_def)
next
  case (Suc d)
  then have lt: "p < k" and d: "d = k - Suc p" by simp_all
  from Suc.prems lt have here: "api (build_params uid rid ct p) = Inr (f p)" "length (f p) = pageSize"
    by simp_all
  have ih: "fetch_loop api uid rid ct maxi (Suc p) (res @ f p) (reqs @ [build_params uid rid ct p]) =
    Some \<lparr>requests = (reqs @ [build_params uid rid ct p]) @ map (build_params uid rid ct) [Suc p..<Suc k],
          outcome = Inr ((res @ f p) @ concat (map f [Suc p..<Suc k]))\<rparr>"
    using Suc.prems lt by (intro Suc.hyps(1) d) simp_all
  have up: "[p..<Suc k] = p # [Suc p..<Suc k]"
    using lt by (simp add: upt_conv_Cons)
  from lt Suc.prems(2) have "counter_below p maxi"
    by (auto intro: counter_below_mono)
  then show ?case
    by (subst fetch_loop.simps) (simp add: Let_def here ih up del: upt_Suc)
qed

text \<open>Full pages up to page \<open>k\<close>, whose request is rejected.\<close>

lemma fetch_loop_rejected:
  assumes "p \<le> k" "counter_below k maxi"
    and "\<forall>i. p \<le> i \<and> i < k \<longrightarrow> api (build_params uid rid ct i) = Inr (f i) \<and> length (f i) = pageSize"
    and "api (build_params uid rid ct k) = Inl err"
  shows "fetch_loop api uid rid ct maxi p res reqs =
    Some \<lparr>requests = reqs @ map (build_params uid rid ct) [p..<Suc k], outcome = Inl err\<rparr>"
  using assms
proof (induction "k - p" arbitrary: p res reqs)
  case 0
  then have pk: "p = k" by simp
  show ?case using 0 unfolding pk
    by (subst fetch_loop.simps) (simp add: Let_def)
next
  case (Suc d)
  then have lt: "p < k" and d: "d = k - Suc p" by simp_all
  from Suc.prems lt have here: "api (build_params uid rid ct p) = Inr (f p)" "length (f p) = pageSize"
    by simp_all
  have ih: "fetch_loop api uid rid ct maxi (Suc p) (res @ f p) (reqs @ [build_params uid rid ct p]) =
    Some \<lparr>requests = (reqs @ [build_params uid rid ct p]) @ map (build_params uid rid ct) [Suc p..<Suc k],
          outcome = Inl err\<rparr>"
    using Suc.prems lt by (intro Suc.hyps(1) d) simp_all
  have up: "[p..<Suc k] = p # [Suc p..<Suc k]"
    using lt by (simp add: upt_conv_Cons)
  from lt Suc.prems(2) have "counter_below p maxi"
    by (auto intro: counter_below_mono)
  then show ?case
    by (subst fetch_loop.simps) (simp add: Let_def here ih up del: upt_Suc)
qed

text \<open>Full pages all the way to a cap that is not \<open>Infinity\<close>.\<close>

lemma fetch_loop_cap:
  assumes "maxi \<noteq> PosInfinity"
    and "\<forall>i. p \<le> i \<and> counter_below i maxi \<longrightarrow> api (build_params uid rid ct i) = Inr (f i) \<and> length (f i) = pageSize"
  shows "fetch_loop api uid rid ct maxi p res reqs =
    Some \<lparr>requests = reqs @ map (build_params uid rid ct) [p..<rounded_up maxi],
          outcome = Inr (res @ concat (map f [p..<rounded_up maxi]))\<rparr>"
  using assms(2)
proof (induction "rounded_up maxi - p" arbitrary: p res reqs)
  case 0
  then have le: "rounded_up maxi \<le> p" by simp
  then have "\<not> counter_below p maxi"
    by (simp add: counter_below_rounded_up [OF assms(1)])
  then show ?case
    by (subst fetch_loop.simps) (simp add: le)
next
  case (Suc d)
  then have lt: "p < rounded_up maxi" and d: "d = rounded_up maxi - Suc p" by simp_all
  then have below: "counter_below p maxi"
    by (simp add: counter_below_rounded_up [OF assms(1)])
  with Suc.prems have here: "api (build_params uid rid ct p) = Inr (f p)" "length (f p) = pageSize"
    by simp_all
  have ih: "fetch_loop api uid rid ct maxi (Suc p) (res @ f p) (reqs @ [build_params uid rid ct p]) =
    Some \<lparr>requests = (reqs @ [build_params uid rid ct p]) @ map (build_params uid rid ct) [Suc p..<rounded_up maxi],
          outcome = Inr ((res @ f p) @ concat (map f [Suc p..<rounded_up maxi]))\<rparr>"
    using Suc.prems by (intro Suc.hyps(1) d) simp_all
  have up: "[p..<rounded_up maxi] = p # [Suc p..<rounded_up maxi]"
    using lt by (simp add: upt_conv_Cons)
  show ?case using below
    by (subst fetch_loop.simps) (simp add: Let_def here ih up del: upt_Suc)
qed

text \<open>Under a cap that is not \<open>Infinity\<close> the loop returns, whatever the server does.\<close>

lemma fetch_loop_returns:
  assumes "maxi \<noteq> PosInfinity"
  shows "\<exists>r. fetch_loop api uid rid ct maxi p res reqs = Some r \<and>
           length (requests r) \<le> length reqs + (rounded_up maxi - p)"
proof (induction "rounded_up maxi - p" arbitrary: p res reqs)
  case 0
  then have "\<not> counter_below p maxi"
    by (simp add: counter_below_rounded_up [OF assms])
  then show ?case
    by (subst fetch_loop.simps) simp
next
  case (Suc d)
  then have lt: "p < rounded_up maxi" and d: "d = rounded_up maxi - Suc p" by simp_all
  then have below: "counter_below p maxi"
    by (simp add: counter_below_rounded_up [OF assms])
  show ?case
  proof (cases "api (build_params uid rid ct p)")
    case (Inl err)
    with below lt show ?thesis
      by (subst fetch_loop.simps) (simp add: Let_def)
  next
    case (Inr events)
    show ?thesis
    proof (cases "length events = pageSize")
      case False
      with below lt Inr show ?thesis
        by (subst fetch_loop.simps) (simp add: Let_def)
    next
      case True
      from Suc.hyps(1) [OF d, of "res @ events" "reqs @ [build_params uid rid ct p]"]
      obtain r where r: "fetch_loop api uid rid ct maxi (Suc p) (res @ events) (reqs @ [build_params uid rid ct p]) = Some r"
        and len: "length (requests r) \<le> length (reqs @ [build_params uid rid ct p]) + (rounded_up maxi - Suc p)"
        by blast
      from len lt have "length (requests r) \<le> length reqs + (rounded_up maxi - p)"
        by simp
      with below Inr True r show ?thesis
        by (subst fetch_loop.simps) (simp add: Let_def)
    qed
  qed
qed

text \<open>A run that returned and had a request rejected ended on that request.\<close>

lemma fetch_loop_failure:
  assumes "fetch_loop api uid rid ct maxi p res reqs = Some r"
    and "\<forall>q' \<in> set reqs. \<forall>x. api q' \<noteq> Inl x"
    and "q \<in> set (requests r)"
    and "api q = Inl err"
  shows "outcome r = Inl err \<and> last (requests r) = q"
proof -
  have "(\<forall>q' \<in> set reqs. \<forall>x. api q' \<noteq> Inl x) \<longrightarrow> q \<in> set (requests r) \<longrightarrow> api q = Inl err \<longrightarrow>
        outcome r = Inl err \<and> last (requests r) = q"
    using assms(1)
  proof (induction api uid rid ct maxi p res reqs r rule: fetch_loop.raw_induct [rotated 1, consumes 1])
    case (1 loop api uid rid ct maxi p res reqs r)
    show ?case
    proof (intro impI)
      assume inv: "\<forall>q' \<in> set reqs. \<forall>x. api q' \<noteq> Inl x" and mem: "q \<in> set (requests r)"
        and rej: "api q = Inl err"
      show "outcome r = Inl err \<and> last (requests r) = q"
      proof (cases "counter_below p maxi")
        case False
        with "1.hyps" have "r = \<lparr>requests = reqs, outcome = Inr res\<rparr>" by simp
        with inv mem rej show ?thesis by auto
      next
        case True
        show ?thesis
        proof (cases "api (build_params uid rid ct p)")
          case (Inl x)
          with True "1.hyps" have "r = \<lparr>requests = reqs @ [build_params uid rid ct p], outcome = Inl x\<rparr>"
            by (simp add: Let_def)
          with Inl inv mem rej show ?thesis by auto
        next
          case (Inr events)
          show ?thesis
          proof (cases "length events = pageSize")
            case False
            with True Inr "1.hyps" have "r = \<lparr>requests = reqs @ [build_params uid rid ct p], outcome = Inr (res @ events)\<rparr>"
              by (simp add: Let_def)
            with Inr inv mem rej show ?thesis by auto
          next
            case full: True
            with True Inr "1.hyps" have
              "loop api uid rid ct maxi (p + 1) (res @ events) (reqs @ [build_params uid rid ct p]) = Some r"
              by (simp add: Let_def)
            from "1.IH" [OF this] inv Inr mem rej show ?thesis by auto
          qed
        qed
      qed
    qed
  qed
  with assms show ?thesis by blast
qed

text \<open>Without a cap, a server whose pages are all full keeps the loop going for ever.\<close>

lemma fetch_loop_endless:
  assumes "\<forall>i. \<exists>events. api (build_params uid rid ct i) = Inr events \<and> length events = pageSize"
  shows "fetch_loop api uid rid ct PosInfinity p res reqs = None"
proof -
  have "maxi = PosInfinity \<longrightarrow>
        (\<forall>i. \<exists>events. api (build_params uid rid ct i) = Inr events \<and> length events = pageSize) \<longrightarrow> False"
    if "fetch_loop api uid rid ct maxi p res reqs = Some r" for maxi r
    using that
  proof (induction api uid rid ct maxi p res reqs r rule: fetch_loop.raw_induct [rotated 1, consumes 1])
    case (1 loop api uid rid ct maxi p res reqs r)
    show ?case
    proof (intro impI)
      assume inf: "maxi = PosInfinity"
        and full: "\<forall>i. \<exists>events. api (build_params uid rid ct i) = Inr events \<and> length events = pageSize"
      from full obtain events where ev: "api (build_params uid rid ct p) = Inr events" "length events = pageSize"
        by blast
      with inf "1.hyps" have
        "loop api uid rid ct maxi (p + 1) (res @ events) (reqs @ [build_params uid rid ct p]) = Some r"
        by (simp add: Let_def counter_below_def)
      from "1.IH" [OF this] inf full show False by blast
    qed
  qed
  with assms show ?thesis
    by (cases "fetch_loop api uid rid ct PosInfinity p res reqs") auto
qed

subsection \<open>The claims about getPaginatedEventsByUID\<close>

text \<open>
  Claim C1, with the bound that the code has: when the server holds a sequence of pages, at
  most \<open>max\<close> of them (\<open>max\<close> is 100 unless the caller passes another), every page before
  the last of exactly 100 events and the last of fewer, \<open>getPaginatedEventsByUID\<close> returns the
  concatenation of all pages in request order, and its requests are one per page: none
  follows the request of the short page.
\<close>

theorem paginated_returns_all_pages:
  assumes "ps \<noteq> []"
    and "\<forall>i. i < length ps - 1 \<longrightarrow> length (ps ! i) = 100"
    and "length (last ps) < 100"
    and "counter_within (length ps) (case maxo of None \<Rightarrow> MAX_ITERATIONS | Some m \<Rightarrow> m)"
    and "\<forall>i. i < length ps \<longrightarrow> api (build_params uid rid ct i) = Inr (ps ! i)"
  shows "getPaginatedEventsByUID api uid rid maxo ct =
    Some \<lparr>requests = map (build_params uid rid ct) [0..<length ps], outcome = Inr (concat ps)\<rparr>"
proof -
  define k where "k = length ps - 1"
  from assms(1) have len: "length ps = Suc k" by (simp add: k_def)
  have lastk: "last ps = ps ! k"
    using assms(1) by (simp add: last_conv_nth k_def)
  have "fetch_loop api uid rid ct (case maxo of None \<Rightarrow> MAX_ITERATIONS | Some m \<Rightarrow> m) 0 [] [] =
    Some \<lparr>requests = [] @ map (build_params uid rid ct) [0..<Suc k],
          outcome = Inr ([] @ concat (map (\<lambda>i. ps ! i) [0..<Suc k]))\<rparr>"
  proof (rule fetch_loop_short)
    show "0 \<le> k" by simp
    show "counter_below k (case maxo of None \<Rightarrow> MAX_ITERATIONS | Some m \<Rightarrow> m)"
      using assms(4) len by (simp add: counter_within_below)
    show "\<forall>i. 0 \<le> i \<and> i < k \<longrightarrow> api (build_params uid rid ct i) = Inr (ps ! i) \<and> length (ps ! i) = pageSize"
      using assms(2,5) len by (simp add: pageSize_def)
    show "api (build_params uid rid ct k) = Inr (ps ! k)"
      using assms(5) len by simp
    show "length (ps ! k) \<noteq> pageSize"
      using assms(3) lastk by (simp add: pageSize_def)
  qed
  then have "fetch_loop api uid rid ct (case maxo of None \<Rightarrow> MAX_ITERATIONS | Some m \<Rightarrow> m) 0 [] [] =
    Some \<lparr>requests = map (build_params uid rid ct) [0..<length ps],
          outcome = Inr (concat (map (\<lambda>i. ps ! i) [0..<length ps]))\<rparr>"
    unfolding len by (simp del: upt_Suc)
  then show ?thesis
    by (simp add: getPaginatedEventsByUID_def map_nth)
qed

text \<open>
  A full page followed by a page of one event, under the default cap and under no cap.
\<close>

theorem paginated_returns_all_pages_witness:
  "getPaginatedEventsByUID (serve_pages [replicate 100 (0::nat), [7]]) ''uid'' None None None =
    Some (\<lparr>requests = [build_params ''uid'' None None 0, build_params ''uid'' None None 1],
      outcome = Inr (concat [replicate 100 0, [7]])\<rparr> :: (unit, nat) fetched) \<and>
   getPaginatedEventsByUID (serve_pages [replicate 100 (0::nat), [7]]) ''uid'' None (Some PosInfinity) None =
    Some (\<lparr>requests = [build_params ''uid'' None None 0, build_params ''uid'' None None 1],
      outcome = Inr (concat [replicate 100 0, [7]])\<rparr> :: (unit, nat) fetched)"
  using paginated_returns_all_pages [of "[replicate 100 (0::nat), [7]]" None "serve_pages [replicate 100 (0::nat), [7]]" "''uid''" None None]
    paginated_returns_all_pages [of "[replicate 100 (0::nat), [7]]" "Some PosInfinity" "serve_pages [replicate 100 (0::nat), [7]]" "''uid''" None None]
  by (simp add: serve_pages_def build_params_def MAX_ITERATIONS_def counter_within_def less_Suc_eq)

text \<open>
  Claim C1 as it is written fails beyond the cap: on 100 full pages followed by a page of
  one event, the default call issues 100 requests and returns the events of the first
  100 pages only.
\<close>

theorem paginated_cap_counterexample:
  "map_option outcome (getPaginatedEventsByUID (serve_pages (replicate 100 (replicate 100 (0::nat)) @ [[1]])) ''uid'' None None None)
     \<noteq> Some (Inr (concat (replicate 100 (replicate 100 0) @ [[1]])) :: unit + nat list) \<and>
   map_option (length \<circ> requests)
     (getPaginatedEventsByUID (serve_pages (replicate 100 (replicate 100 (0::nat)) @ [[1]]) :: _ \<Rightarrow> unit + nat list)
        ''uid'' None None None) = Some 100"
proof -
  let ?ps = "replicate 100 (replicate 100 (0::nat)) @ [[1]]"
  have "fetch_loop (serve_pages ?ps :: _ \<Rightarrow> unit + nat list) ''uid'' None None (Finite 100) 0 [] [] =
    Some \<lparr>requests = [] @ map (build_params ''uid'' None None) [0..<rounded_up (Finite 100)],
          outcome = Inr ([] @ concat (map (\<lambda>i. replicate 100 0) [0..<rounded_up (Finite 100)]))\<rparr>"
    by (rule fetch_loop_cap)
      (simp_all add: serve_pages_def build_params_def pageSize_def nth_append counter_below_def)
  then have run: "getPaginatedEventsByUID (serve_pages ?ps) ''uid'' None None None =
      Some (\<lparr>requests = map (build_params ''uid'' None None) [0..<100],
             outcome = Inr (concat (map (\<lambda>i. replicate 100 0) [0..<100]))\<rparr> :: (unit, nat) fetched)"
    by (simp add: getPaginatedEventsByUID_def MAX_ITERATIONS_def rounded_up_def)
  have "length (concat (map (\<lambda>i. replicate 100 (0::nat)) [0..<100])) = 10000"
    by (simp add: length_concat comp_def sum_list_triv sum_list_replicate)
  moreover have "length (concat ?ps) = 10001"
    by (simp add: length_concat comp_def sum_list_triv sum_list_replicate)
  ultimately have "concat (map (\<lambda>i. replicate 100 (0::nat)) [0..<100]) \<noteq> concat ?ps"
    by auto
  then show ?thesis
    unfolding run by simp
qed

text \<open>
  Claim C3, with the bound that the code has: whatever the server answers, a call whose
  \<open>max\<close> is left out or is any Number but \<open>Infinity\<close> returns, and it has issued at most
  \<open>max\<close> page requests, \<open>max\<close> rounded up to a whole number (none when \<open>max\<close> is negative,
  \<open>NaN\<close> or \<open>-Infinity\<close>); that is at most 100 requests when the caller passes no \<open>max\<close>.
\<close>

theorem paginated_requests_bounded:
  "(maxo \<noteq> Some PosInfinity \<longrightarrow>
      (\<exists>r. getPaginatedEventsByUID api uid rid maxo ct = Some r \<and>
           length (requests r) \<le> rounded_up (case maxo of None \<Rightarrow> MAX_ITERATIONS | Some m \<Rightarrow> m))) \<and>
   (\<exists>r. getPaginatedEventsByUID api uid rid None ct = Some r \<and> length (requests r) \<le> 100)"
proof -
  have "\<exists>r. getPaginatedEventsByUID api uid rid maxo ct = Some r \<and>
           length (requests r) \<le> rounded_up (case maxo of None \<Rightarrow> MAX_ITERATIONS | Some m \<Rightarrow> m)"
    if "maxo \<noteq> Some PosInfinity" for maxo
  proof -
    from that have "(case maxo of None \<Rightarrow> MAX_ITERATIONS | Some m \<Rightarrow> m) \<noteq> PosInfinity"
      by (auto simp: MAX_ITERATIONS_def split: option.splits)
    from fetch_loop_returns [OF this, of api uid rid ct 0 "[]" "[]"] show ?thesis
      by (simp add: getPaginatedEventsByUID_def)
  qed
  from this [of maxo] this [of None] show ?thesis
    by (simp add: MAX_ITERATIONS_def rounded_up_def)
qed

text \<open>A cap of 2.5 on a server whose pages are all full: three requests.\<close>

lemma five_halves_run:
  "getPaginatedEventsByUID (full_pages (0::nat) :: _ \<Rightarrow> unit + nat list) ''uid'' None (Some (Finite (5 / 2))) None =
     Some \<lparr>requests = [build_params ''uid'' None None 0, build_params ''uid'' None None 1,
                       build_params ''uid'' None None 2],
           outcome = Inr (replicate 300 0)\<rparr>"
  by (simp add: getPaginatedEventsByUID_def fetch_loop.simps full_pages_def counter_below_def pageSize_def
      Let_def replicate_add [symmetric] numeral_2_eq_2)

text \<open>
  The server whose pages are all full, with a cap of 2.5, where the bound of three
  requests is reached, and with the default cap.
\<close>

theorem paginated_requests_bounded_witness:
  "(\<exists>r. getPaginatedEventsByUID (full_pages (0::nat) :: _ \<Rightarrow> unit + nat list) ''uid'' None (Some (Finite (5 / 2))) None = Some r \<and>
        length (requests r) \<le> 3) \<and>
   map_option (length \<circ> requests)
     (getPaginatedEventsByUID (full_pages (0::nat) :: _ \<Rightarrow> unit + nat list) ''uid'' None (Some (Finite (5 / 2))) None) = Some 3 \<and>
   (\<exists>r. getPaginatedEventsByUID (full_pages (0::nat) :: _ \<Rightarrow> unit + nat list) ''uid'' None None None = Some r \<and>
        length (requests r) \<le> 100)"
  using paginated_requests_bounded [of "Some (Finite (5 / 2))" "full_pages (0::nat) :: _ \<Rightarrow> unit + nat list" "''uid''" None None]
  by (simp add: rounded_up_def five_halves_run)

text \<open>
  Claim C3 as it is written fails when the caller passes a cap of its own: against a
  server whose pages are all full, \<open>max\<close> 101 makes 101 requests, and under \<open>max\<close>
  \<open>Infinity\<close> no number of requests ends the loop: the call never returns.
\<close>

theorem paginated_hundred_requests_counterexample:
  "map_option (length \<circ> requests)
     (getPaginatedEventsByUID (full_pages (0::nat) :: _ \<Rightarrow> unit + nat list) ''uid'' None (Some (Finite 101)) None) = Some 101 \<and>
   getPaginatedEventsByUID (full_pages (0::nat) :: _ \<Rightarrow> unit + nat list) ''uid'' None (Some PosInfinity) None = None"
proof -
  have "fetch_loop (full_pages (0::nat) :: _ \<Rightarrow> unit + nat list) ''uid'' None None (Finite 101) 0 [] [] =
    Some \<lparr>requests = [] @ map (build_params ''uid'' None None) [0..<rounded_up (Finite 101)],
          outcome = Inr ([] @ concat (map (\<lambda>i. replicate 100 0) [0..<rounded_up (Finite 101)]))\<rparr>"
    by (rule fetch_loop_cap) (simp_all add: full_pages_def pageSize_def)
  moreover have "fetch_loop (full_pages (0::nat) :: _ \<Rightarrow> unit + nat list) ''uid'' None None PosInfinity 0 [] [] = None"
    by (rule fetch_loop_endless) (simp add: full_pages_def pageSize_def)
  ultimately show ?thesis
    by (simp add: getPaginatedEventsByUID_def rounded_up_def)
qed

text \<open>
  Claim C8: when a request that \<open>getPaginatedEventsByUID\<close> issued was rejected, the call
  is rejected with exactly that error, no events are returned, and the rejected request
  is the last one issued. A rejection does end the call: when the request of page \<open>k\<close>,
  below the cap, is rejected after full pages, the call returns with that error and
  with the requests of the pages up to \<open>k\<close>.
\<close>

theorem paginated_failure_propagates:
  "(getPaginatedEventsByUID api uid rid maxo ct = Some r \<and> q \<in> set (requests r) \<and> api q = Inl err \<longrightarrow>
      outcome r = Inl err \<and> last (requests r) = q) \<and>
   (counter_below k (case maxo of None \<Rightarrow> MAX_ITERATIONS | Some m \<Rightarrow> m) \<and>
    api (build_params uid rid ct k) = Inl err \<and>
    (\<forall>i. i < k \<longrightarrow> (\<exists>events. api (build_params uid rid ct i) = Inr events \<and> length events = 100)) \<longrightarrow>
      getPaginatedEventsByUID api uid rid maxo ct =
        Some \<lparr>requests = map (build_params uid rid ct) [0..<Suc k], outcome = Inl err\<rparr>)"
proof (intro conjI impI)
  assume a: "getPaginatedEventsByUID api uid rid maxo ct = Some r \<and> q \<in> set (requests r) \<and> api q = Inl err"
  then have "fetch_loop api uid rid ct (case maxo of None \<Rightarrow> MAX_ITERATIONS | Some m \<Rightarrow> m) 0 [] [] = Some r"
    by (simp add: getPaginatedEventsByUID_def)
  from fetch_loop_failure [OF this, of q err] a
  show "outcome r = Inl err" and "last (requests r) = q"
    by simp_all
next
  assume b: "counter_below k (case maxo of None \<Rightarrow> MAX_ITERATIONS | Some m \<Rightarrow> m) \<and>
    api (build_params uid rid ct k) = Inl err \<and>
    (\<forall>i. i < k \<longrightarrow> (\<exists>events. api (build_params uid rid ct i) = Inr events \<and> length events = 100))"
  define f where "f i = (case api (build_params uid rid ct i) of Inr events \<Rightarrow> events | Inl _ \<Rightarrow> [])" for i
  have full: "\<forall>i. 0 \<le> i \<and> i < k \<longrightarrow> api (build_params uid rid ct i) = Inr (f i) \<and> length (f i) = pageSize"
    using b by (auto simp: f_def pageSize_def)
  from b have "fetch_loop api uid rid ct (case maxo of None \<Rightarrow> MAX_ITERATIONS | Some m \<Rightarrow> m) 0 [] [] =
      Some \<lparr>requests = [] @ map (build_params uid rid ct) [0..<Suc k], outcome = Inl err\<rparr>"
    by (intro fetch_loop_rejected [where f = f] full) simp_all
  then show "getPaginatedEventsByUID api uid rid maxo ct =
        Some \<lparr>requests = map (build_params uid rid ct) [0..<Suc k], outcome = Inl err\<rparr>"
    by (simp add: getPaginatedEventsByUID_def del: upt_Suc)
qed

text \<open>One full page, then a rejection of the second request, under no cap.\<close>

theorem paginated_failure_propagates_witness:
  "getPaginatedEventsByUID (serve_then_fail [replicate 100 (0::nat)] ''boom'') ''uid'' None (Some PosInfinity) None =
     Some \<lparr>requests = [build_params ''uid'' None None 0, build_params ''uid'' None None 1], outcome = Inl ''boom''\<rparr> \<and>
   outcome \<lparr>requests = [build_params ''uid'' None None 0, build_params ''uid'' None None 1],
            outcome = (Inl ''boom'' :: string + nat list)\<rparr> = Inl ''boom''"
proof -
  have run: "getPaginatedEventsByUID (serve_then_fail [replicate 100 (0::nat)] ''boom'') ''uid'' None (Some PosInfinity) None =
     Some \<lparr>requests = [build_params ''uid'' None None 0, build_params ''uid'' None None 1], outcome = Inl ''boom''\<rparr>"
    using paginated_failure_propagates [of "serve_then_fail [replicate 100 (0::nat)] ''boom''" "''uid''" None
        "Some PosInfinity" None undefined undefined "''boom''" 1]
    by (simp add: serve_then_fail_def build_params_def counter_below_def)
  have "build_params ''uid'' None None 1 \<in> set [build_params ''uid'' None None 0, build_params ''uid'' None None 1]"
    and "serve_then_fail [replicate 100 (0::nat)] ''boom'' (build_params ''uid'' None None 1) = Inl ''boom''"
    by (simp_all add: serve_then_fail_def build_params_def)
  with paginated_failure_propagates [of "serve_then_fail [replicate 100 (0::nat)] ''boom''" "''uid''" None
        "Some PosInfinity" None _ "build_params ''uid'' None None 1" "''boom''" 0] run
  show ?thesis by simp
qed

subsection \<open>reformatApiErrorMessage\<close>

lemma toLowerCase_suffix: "toLowerCase ''. please try again'' = ''. please try again''"
  by (simp add: toLowerCase_def toLowerCase_char_def)

text \<open>
  Claim C9: on a string that ends, up to case, with the 18 characters
  \<open>. please try again\<close>, \<open>reformatApiErrorMessage\<close> returns the string without its last 18
  characters; on every other string it returns its argument.
\<close>

theorem reformatApiErrorMessage_strips_suffix:
  "reformatApiErrorMessage s =
     (if ends_with_ignoring_case s ''. please try again'' then take (length s - 18) s else s) \<and>
   length ''. please try again'' = 18"
proof -
  have "endsWith (toLowerCase s) ''. please try again'' = ends_with_ignoring_case s ''. please try again''"
    unfolding endsWith_def ends_with_ignoring_case_def toLowerCase_suffix
    by (simp add: toLowerCase_def drop_map)
  moreover have "slice s 0 (- 18) = take (length s - 18) s"
    by (simp add: slice_def slice_index_def Let_def max_def nat_diff_distrib)
  ultimately show ?thesis
    by (simp add: reformatApiErrorMessage_def)
qed

text \<open>
  A message with the suffix in mixed case, and one without the suffix.
\<close>

theorem reformatApiErrorMessage_strips_suffix_witness:
  "reformatApiErrorMessage ''Failed. Please TRY again'' = ''Failed'' \<and>
   reformatApiErrorMessage ''Please try again later'' = ''Please try again later''"
  using reformatApiErrorMessage_strips_suffix [of "''Failed. Please TRY again''"]
    reformatApiErrorMessage_strips_suffix [of "''Please try again later''"]
  by (simp add: ends_with_ignoring_case_def toLowerCase_def toLowerCase_char_def)

section \<open>Properties of the import wizard\<close>

subsection \<open>State and effects\<close>

lemma modalModel_emit [simp]: "modalModel (emit e w) = modalModel w"
  by (simp add: emit_def)

lemma effects_emit [simp]: "effects (emit e w) = effects w @ [e]"
  by (simp add: emit_def)

lemma modalModel_setModalModel [simp]: "modalModel (setModalModel f w) = f (modalModel w)"
  by (simp add: setModalModel_def)

lemma effects_setModalModel [simp]: "effects (setModalModel f w) = effects w"
  by (simp add: setModalModel_def)

lemma new_effects_append [simp]: "effects w' = effects w @ es \<Longrightarrow> new_effects w w' = es"
  by (simp add: new_effects_def)

lemma modalModel_rerender [simp]: "modalModel (rerender w) = modalModel w"
  by (simp add: rerender_def)

lemma effects_rerender [simp]: "effects (rerender w) = effects w"
  by (simp add: rerender_def)

lemma cancelMemo_emit [simp]: "cancelMemo (emit e w) = cancelMemo w"
  by (simp add: emit_def)

lemma cancelMemo_setModalModel [simp]: "cancelMemo (setModalModel f w) = cancelMemo w"
  by (simp add: setModalModel_def)

text \<open>A render rebuilds the Cancel button only when the step has changed.\<close>

lemma rerender_same_step: "step (modalModel w) = step (cancelMemo w) \<Longrightarrow> rerender w = w"
  by (simp add: rerender_def)

text \<open>The two example wizards are the states the component opens with.\<close>

lemma example_start_opened:
  "open_wizard example_imports (example_props None None) = Some example_start"
  by (simp add: open_wizard_def initialModalModel_def example_props_def example_start_def example_model_def
      or_else_def current_def getDefaultImap_def getDefaultPort_def defaultPeriod_def)

lemma example_reconnect_opened:
  "open_wizard example_imports (example_props (Some example_current) None) = Some example_reconnect"
  by (simp add: open_wizard_def initialModalModel_def example_props_def example_reconnect_def example_reconnect_model_def
      example_current_def or_else_def current_def getDefaultImap_def getDefaultPort_def defaultPeriod_def)

lemma example_known_eq:
  "example_known =
     \<lparr>modalModel =
        \<lparr>step = START, importID = ''imp1'', email = ''user@example.org'', password = ''secret'',
         imap = ''imap.example.org'', port = ''993'',
         errorCode = 0, errorLabel = [], providerFolders = [], selectedPeriod = LAST_3_MONTHS,
         payload = \<lparr>AddressID = ''address-1'', Mapping = [], CustomFields = 0, StartTime = None\<rparr>,
         isPayloadInvalid = False\<rparr>,
      cancelMemo = example_model,
      effects = [Api (GetAuthenticationMethod ''user@example.org'')
        (Inr (AuthenticationResponse \<lparr>authImapHost = Some ''imap.example.org'', authImapPort = Some ''993'',
                  authImporterID = Some ''imp1''\<rparr>))]\<rparr>"
  by (simp add: example_known_def example_start_def example_model_def typed_def checkAuth_def
      example_server_def rerender_def setModalModel_def emit_def or_else_def Let_def)


subsection \<open>Sorting the folders\<close>

text \<open>The comparator is consistent: it is antisymmetric and transitive, so the stable
  sorting it determines is unique.\<close>

lemma destinationFoldersFirst_antisymmetric:
  "destinationFoldersFirst a b = - destinationFoldersFirst b a"
  by (auto simp: destinationFoldersFirst_def)

lemma destinationFoldersFirst_transitive:
  "destinationFoldersFirst a b \<le> 0 \<Longrightarrow> destinationFoldersFirst b c \<le> 0 \<Longrightarrow> destinationFoldersFirst a c \<le> 0"
  by (auto simp: destinationFoldersFirst_def split: if_splits)

lemma insert_with_destination:
  "hasDestination x \<Longrightarrow> insert_sorted destinationFoldersFirst x ys = x # ys"
  by (cases ys) (simp_all add: destinationFoldersFirst_def)

lemma insert_after_destinations:
  "\<not> hasDestination x \<Longrightarrow> list_all hasDestination ds \<Longrightarrow>
   insert_sorted destinationFoldersFirst x (ds @ us) = ds @ insert_sorted destinationFoldersFirst x us"
  by (induction ds) (simp_all add: destinationFoldersFirst_def)

lemma insert_by_source:
  "\<not> hasDestination x \<Longrightarrow> list_all (\<lambda>f. \<not> hasDestination f) us \<Longrightarrow>
   insert_sorted destinationFoldersFirst x us = insort_key Source x us"
  by (induction us) (auto simp: destinationFoldersFirst_def)

lemma array_sort_folders:
  "array_sort destinationFoldersFirst fs =
     filter hasDestination fs @ sort_key Source (filter (\<lambda>f. \<not> hasDestination f) fs)"
proof (induction fs)
  case Nil
  show ?case by (simp add: array_sort_def)
next
  case (Cons x fs)
  have step: "array_sort destinationFoldersFirst (x # fs) =
      insert_sorted destinationFoldersFirst x (array_sort destinationFoldersFirst fs)"
    by (simp add: array_sort_def)
  show ?case
  proof (cases "hasDestination x")
    case True
    then show ?thesis
      unfolding step Cons.IH by (simp add: insert_with_destination)
  next
    case False
    have ds: "list_all hasDestination (filter hasDestination fs)"
      by (simp add: list_all_iff)
    have us: "list_all (\<lambda>f. \<not> hasDestination f) (sort_key Source (filter (\<lambda>f. \<not> hasDestination f) fs))"
      by (simp add: list_all_iff)
    from False show ?thesis
      unfolding step Cons.IH
      by (simp add: insert_after_destinations [OF False ds] insert_by_source [OF False us])
  qed
qed

text \<open>
  Claim C2, as the comparator has it: the sorted list that \<open>moveToPrepareStep\<close> stores
  consists of the folders with a destination, in the order they came in, followed by
  the folders without one, in ascending order of their \<open>Source\<close>.
\<close>

theorem folders_destination_first_then_by_source:
  "\<exists>ds us. providerFolders (modalModel (moveToPrepareStep I Importer fs w)) = ds @ us \<and>
     ds = filter hasDestination fs \<and>
     list_all (\<lambda>f. \<not> hasDestination f) us \<and>
     sorted (map Source us) \<and>
     mset us = mset (filter (\<lambda>f. \<not> hasDestination f) fs)"
  by (simp add: moveToPrepareStep_def array_sort_folders list_all_iff)

text \<open>
  Four folders, the two with a destination out of alphabetical order.
\<close>

theorem folders_destination_first_then_by_source_witness:
  "providerFolders (modalModel (moveToPrepareStep example_imports example_importer example_folders example_start)) =
     [\<lparr>Source = ''Sent'', DestinationFolder = Some ''Sent''\<rparr>,
      \<lparr>Source = ''INBOX'', DestinationFolder = Some ''Inbox''\<rparr>] @
     [\<lparr>Source = ''Archive'', DestinationFolder = None\<rparr>,
      \<lparr>Source = ''Work'', DestinationFolder = None\<rparr>] \<and>
   sorted (map Source [\<lparr>Source = ''Archive'', DestinationFolder = None\<rparr>,
      \<lparr>Source = ''Work'', DestinationFolder = None\<rparr>])"
proof -
  from folders_destination_first_then_by_source [of example_imports example_importer example_folders example_start]
  obtain ds us where
    split: "providerFolders (modalModel (moveToPrepareStep example_imports example_importer example_folders example_start)) = ds @ us"
    and ds: "ds = filter hasDestination example_folders"
    and sorted: "sorted (map Source us)"
    by blast
  have front: "ds = [\<lparr>Source = ''Sent'', DestinationFolder = Some ''Sent''\<rparr>,
      \<lparr>Source = ''INBOX'', DestinationFolder = Some ''Inbox''\<rparr>]"
    unfolding ds by (simp add: example_folders_def hasDestination_def truthy_def)
  moreover have "providerFolders (modalModel (moveToPrepareStep example_imports example_importer example_folders example_start)) =
     [\<lparr>Source = ''Sent'', DestinationFolder = Some ''Sent''\<rparr>,
      \<lparr>Source = ''INBOX'', DestinationFolder = Some ''Inbox''\<rparr>,
      \<lparr>Source = ''Archive'', DestinationFolder = None\<rparr>,
      \<lparr>Source = ''Work'', DestinationFolder = None\<rparr>]"
    by (simp add: moveToPrepareStep_def example_folders_def hasDestination_def truthy_def array_sort_def
        destinationFoldersFirst_def)
  ultimately have "us = [\<lparr>Source = ''Archive'', DestinationFolder = None\<rparr>,
      \<lparr>Source = ''Work'', DestinationFolder = None\<rparr>]"
    using split by simp
  with sorted split front show ?thesis by simp
qed

text \<open>
  Claim C2 as it is written fails inside the group with a destination: \<open>Sent\<close> stays in
  front of \<open>INBOX\<close>, since the comparator calls any two such folders equal.
\<close>

theorem destination_group_unsorted_counterexample:
  "\<not> sorted (map Source (filter hasDestination
        (providerFolders (modalModel (moveToPrepareStep example_imports example_importer example_folders example_start)))))"
  by (simp add: moveToPrepareStep_def example_folders_def hasDestination_def truthy_def array_sort_def
      destinationFoldersFirst_def)

subsection \<open>handleSubmitStartError\<close>

lemma handleSubmitStartError_effects:
  "effects (handleSubmitStartError I err w) =
     effects w @ ConsoleError (data err) #
       (if (case data err of None \<Rightarrow> 0 | Some d \<Rightarrow> Code d) \<in> set (inline_codes I) then [] else [ErrorHandler err])"
  by (simp add: handleSubmitStartError_def Let_def split: option.splits)

lemma handleSubmitStartError_model:
  "modalModel (handleSubmitStartError I err w) =
     (if (case data err of None \<Rightarrow> 0 | Some d \<Rightarrow> Code d) \<in> set (inline_codes I)
      then (modalModel w)\<lparr>errorCode := (case data err of None \<Rightarrow> 0 | Some d \<Rightarrow> Code d),
                           errorLabel := (case data err of None \<Rightarrow> [] | Some d \<Rightarrow> Error d)\<rparr>
      else modalModel w)"
  by (simp add: handleSubmitStartError_def Let_def split: option.splits)



subsection \<open>handleCancel\<close>

text \<open>
  Claim C5, for the handler of the current render and with the third case that the code
  has: closing the modal, which runs the \<open>handleCancel\<close> of the current state, leaves the
  state alone; it closes at once, without a dialog, exactly when \<open>email\<close> is empty or the
  step is \<open>STARTED\<close> or the wizard is in reconnect mode, and otherwise it opens the
  confirmation dialog and does not close; confirming the dialog closes.
\<close>

theorem handleCancel_confirmation:
  "modalModel (closeRequested P w) = modalModel w \<and>
   (new_effects w (closeRequested P w) = [OnClose] \<longleftrightarrow>
      email (modalModel w) = [] \<or> step (modalModel w) = STARTED \<or> isReconnectMode P) \<and>
   (new_effects w (closeRequested P w) = [CreateModal quitImportModal] \<longleftrightarrow>
      email (modalModel w) \<noteq> [] \<and> step (modalModel w) \<noteq> STARTED \<and> \<not> isReconnectMode P) \<and>
   new_effects w' (confirm quitImportModal w') = [OnClose]"
  by (auto simp: closeRequested_def handleCancel_def confirm_def quitImportModal_def)

text \<open>
  With an address typed in, closing the modal asks; before any input, it closes.
\<close>

theorem handleCancel_confirmation_witness:
  "new_effects example_known (closeRequested (example_props None None) example_known) = [CreateModal quitImportModal] \<and>
   new_effects example_start (closeRequested (example_props None None) example_start) = [OnClose]"
  using handleCancel_confirmation [of "example_props None None" example_known example_known]
    handleCancel_confirmation [of "example_props None None" example_start example_start]
  by (simp add: example_known_eq example_start_def example_model_def example_props_def isReconnectMode_def)

text \<open>
  Claim C5 as it is written fails in reconnect mode: the wizard opened on an existing
  import has a non-empty \<open>email\<close> and is at \<open>START\<close>, and closing the modal closes it at once.
\<close>

theorem handleCancel_reconnect_counterexample:
  "open_wizard example_imports (example_props (Some example_current) None) = Some example_reconnect \<and>
   email (modalModel example_reconnect) \<noteq> [] \<and> step (modalModel example_reconnect) \<noteq> STARTED \<and>
   new_effects example_reconnect (closeRequested (example_props (Some example_current) None) example_reconnect) = [OnClose]"
  by (simp add: example_reconnect_opened)
    (simp add: example_reconnect_def example_reconnect_model_def closeRequested_def handleCancel_def
      example_props_def isReconnectMode_def)

text \<open>
  The Cancel button of the footer is another matter: it decides on the state of the
  render that built it, not on the current one. At \<open>START\<close> that is the state the wizard
  opened with, so after an address is typed in the button still closes at once, where
  closing the modal asks.
\<close>

lemma cancelClicked_decides_on_memo:
  "new_effects w (cancelClicked P w) = [OnClose] \<longleftrightarrow>
     email (cancelMemo w) = [] \<or> step (cancelMemo w) = STARTED \<or> isReconnectMode P"
  by (auto simp: cancelClicked_def handleCancel_def)

lemma cancel_button_after_typing:
  "email (modalModel example_known) = ''user@example.org'' \<and>
   step (modalModel example_known) = START \<and>
   new_effects example_known (cancelClicked (example_props None None) example_known) = [OnClose] \<and>
   new_effects example_known (closeRequested (example_props None None) example_known) = [CreateModal quitImportModal]"
  by (simp add: example_known_eq example_model_def cancelClicked_def closeRequested_def handleCancel_def
      example_props_def isReconnectMode_def)

subsection \<open>Initial state\<close>

text \<open>
  Claim C7: opened without a current import (and with an address to import into), the
  wizard starts with the Yahoo host and port for the provider \<open>YAHOO\<close>, with the Outlook
  ones for \<open>OUTLOOK\<close>, and with both fields empty for any other or no provider.
\<close>

theorem initial_imap_and_port:
  assumes "currentImport P = None" and "addresses P \<noteq> []"
  shows "\<exists>m. initialModalModel I P = Some m \<and>
    (provider P = Some YAHOO \<longrightarrow> imap m = IMAPS I YAHOO \<and> port m = PORTS I YAHOO) \<and>
    (provider P = Some OUTLOOK \<longrightarrow> imap m = IMAPS I OUTLOOK \<and> port m = PORTS I OUTLOOK) \<and>
    (provider P \<noteq> Some YAHOO \<and> provider P \<noteq> Some OUTLOOK \<longrightarrow> imap m = [] \<and> port m = [])"
proof (cases "addresses P")
  case Nil
  with assms(2) show ?thesis by simp
next
  case (Cons address rest)
  have imap_default: "getDefaultImap I (provider P) =
      (if provider P = Some YAHOO then IMAPS I YAHOO
       else if provider P = Some OUTLOOK then IMAPS I OUTLOOK else [])"
    by (simp add: getDefaultImap_def split: option.splits NON_OAUTH_PROVIDER.splits)
  have port_default: "getDefaultPort I (provider P) =
      (if provider P = Some YAHOO then PORTS I YAHOO
       else if provider P = Some OUTLOOK then PORTS I OUTLOOK else [])"
    by (simp add: getDefaultPort_def split: option.splits NON_OAUTH_PROVIDER.splits)
  from assms(1) Cons show ?thesis
    by (simp add: initialModalModel_def current_def or_else_def imap_default port_default)
qed

text \<open>
  The Yahoo defaults.
\<close>

theorem initial_imap_and_port_witness:
  "\<exists>m. initialModalModel example_imports (example_props None (Some YAHOO)) = Some m \<and>
     imap m = ''export.imap.mail.yahoo.com'' \<and> port m = ''993''"
  using initial_imap_and_port [of "example_props None (Some YAHOO)" example_imports]
  by (simp add: example_props_def example_imports_def)

subsection \<open>The Number of a port and its text\<close>










subsection \<open>moveToPrepareStep\<close>

lemma handleSubmitStartError_step [simp]:
  "step (modalModel (handleSubmitStartError I err w)) = step (modalModel w)"
  by (simp add: handleSubmitStartError_model)

lemma handleSubmitStartError_importID [simp]:
  "importID (modalModel (handleSubmitStartError I err w)) = importID (modalModel w)"
  by (simp add: handleSubmitStartError_model)









subsection \<open>Where importID comes from\<close>

lemma job_known_append: "job_known P es \<Longrightarrow> job_known P (es @ later)"
  by (auto simp: job_known_def)

lemma or_else_cases: "or_else v d \<noteq> [] \<Longrightarrow> truthy v \<or> or_else v d = d"
  by (auto simp: or_else_def truthy_def split: option.splits)

lemma moveToPrepareStep_effects [simp]: "effects (moveToPrepareStep I Importer folders w) = effects w"
  by (simp add: moveToPrepareStep_def)

lemma moveToPrepareStep_importID [simp]:
  "importID (modalModel (moveToPrepareStep I Importer folders w)) = ID Importer"
  by (simp add: moveToPrepareStep_def)

lemma opened_known:
  assumes "initialModalModel I P = Some m" "importID m \<noteq> []"
  shows "job_known P []"
proof -
  from assms have "or_else (current P currentID) [] \<noteq> []"
    by (auto simp: initialModalModel_def split: list.splits)
  then have "truthy (current P currentID)"
    by (auto dest: or_else_cases)
  then show ?thesis
    by (simp add: job_known_def opened_with_import_def)
qed

lemma checkAuth_known:
  assumes "importID (modalModel w) \<noteq> [] \<longrightarrow> job_known P (effects w)"
    and "importID (modalModel (fst (checkAuth srv w))) \<noteq> []"
  shows "job_known P (effects (fst (checkAuth srv w)))"
proof (cases "getAuthenticationMethod srv (email (modalModel w))")
  case (Inl err)
  with assms show ?thesis
    by (auto simp: checkAuth_def Let_def intro: job_known_append)
next
  case (Inr auth)
  then have model: "importID (modalModel (fst (checkAuth srv w))) = or_else (authImporterID auth) (importID (modalModel w))"
    and eff: "effects (fst (checkAuth srv w)) =
      effects w @ [Api (GetAuthenticationMethod (email (modalModel w))) (Inr (AuthenticationResponse auth))]"
    by (simp_all add: checkAuth_def Let_def)
  from assms(2) model consider "truthy (authImporterID auth)" | "importID (modalModel w) \<noteq> []"
    using or_else_cases by fastforce
  then show ?thesis
  proof cases
    case 1
    then show ?thesis
      by (simp add: eff job_known_def returns_ImporterID_def)
  next
    case 2
    with assms(1) show ?thesis
      by (simp add: eff job_known_append)
  qed
qed

lemma submitAuthentication_known:
  assumes "importID (modalModel w) \<noteq> [] \<longrightarrow> job_known P (effects w)"
    and "importID (modalModel (submitAuthentication I srv w)) \<noteq> []"
  shows "job_known P (effects (submitAuthentication I srv w))"
proof (cases "importID (modalModel w) = []")
  case False
  with assms(1) have known: "job_known P (effects w)" by simp
  have "\<exists>es. effects (submitAuthentication I srv w) = effects w @ es"
    using False
    by (auto simp: submitAuthentication_def Let_def handleSubmitStartError_effects
        split: sum.splits option.splits)
  with known show ?thesis
    by (auto intro: job_known_append)
next
  case True
  with assms(2) show ?thesis
    by (auto simp: submitAuthentication_def Let_def handleSubmitStartError_effects job_known_def
        returns_ImporterID_def split: sum.splits option.splits if_splits)
qed

lemma launchImport_known:
  assumes "importID (modalModel w) \<noteq> [] \<longrightarrow> job_known P (effects w)"
    and "importID (modalModel (fst (launchImport I srv w))) \<noteq> []"
  shows "job_known P (effects (fst (launchImport I srv w)))"
  using assms
  by (auto simp: launchImport_def Let_def formatImportPayload_def job_known_def
      split: sum.splits option.splits)

lemma resumeImporter_known:
  assumes "importID (modalModel w) \<noteq> [] \<longrightarrow> job_known P (effects w)"
    and "importID (modalModel (fst (resumeImporter I srv w))) \<noteq> []"
  shows "job_known P (effects (fst (resumeImporter I srv w)))"
  using assms
  by (auto simp: resumeImporter_def Let_def job_known_def split: sum.splits option.splits)

lemma handleSubmit_known:
  assumes "importID (modalModel w) \<noteq> [] \<longrightarrow> job_known P (effects w)"
    and "importID (modalModel (fst (handleSubmit I P srv w))) \<noteq> []"
  shows "job_known P (effects (fst (handleSubmit I P srv w)))"
proof (cases "step (modalModel w)")
  case START
  with assms show ?thesis
    using resumeImporter_known [of w P I srv] submitAuthentication_known [of w P I srv]
    by (simp add: handleSubmit_def split: if_splits)
next
  case PREPARE
  with assms show ?thesis
    using launchImport_known [of w P I srv] by (simp add: handleSubmit_def)
next
  case STARTED
  with assms show ?thesis
    by (auto simp: handleSubmit_def intro: job_known_append)
qed

lemma reachable_known:
  assumes "reachable I P edits w" and "\<forall>m m'. edits m m' \<longrightarrow> importID m' = importID m"
  shows "importID (modalModel w) \<noteq> [] \<longrightarrow> job_known P (effects w)"
  using assms(1)
proof (induction rule: reachable.induct)
  case (opened m)
  then show ?case by (auto dest: opened_known)
next
  case (edited w m')
  with assms(2) show ?case by simp
next
  case (looked_up w srv)
  then show ?case using checkAuth_known by simp
next
  case (submitted w srv)
  then show ?case using handleSubmit_known by simp
next
  case (close_requested w)
  then show ?case
    by (auto simp: closeRequested_def handleCancel_def intro: job_known_append)
next
  case (cancel_clicked w)
  then show ?case
    by (auto simp: cancelClicked_def handleCancel_def intro: job_known_append)
next
  case (confirmed w modal)
  then show ?case
    by (auto simp: confirm_def intro: job_known_append split: callback.splits)
qed

lemma submitAuthentication_known_requests:
  assumes "importID (modalModel w) \<noteq> []"
  shows "api_requests (new_effects w (submitAuthentication I srv w)) =
    (case getImport srv (importID (modalModel w)) of
       Inl err \<Rightarrow> [GetImport (importID (modalModel w))]
     | Inr Importer \<Rightarrow> [GetImport (importID (modalModel w)),
                        GetMailImportData (ID Importer) (password (modalModel w)) True])"
  using assms
  by (auto simp: submitAuthentication_def Let_def handleSubmitStartError_effects new_effects_def
      api_requests_def split: sum.splits option.splits)

text \<open>
  Claim C6, with what the code does once the id is known: as long as the step components
  leave \<open>importID\<close> alone, a reachable wizard has a non-empty \<open>importID\<close> only if it was
  opened on an existing import or a create-import or authentication lookup has returned
  an id; and with a non-empty \<open>importID\<close>, submitting the authentication creates no
  import: it looks the import up and, when that succeeds, fetches its folder listing.
\<close>

theorem importID_from_server_and_reused:
  assumes "reachable I P edits w" and "\<forall>m m'. edits m m' \<longrightarrow> importID m' = importID m"
  shows "(importID (modalModel w) \<noteq> [] \<longrightarrow>
            opened_with_import P \<or> list_ex returns_ImporterID (effects w)) \<and>
         (importID (modalModel w) \<noteq> [] \<longrightarrow>
            list_all (\<lambda>rq. \<not> is_CreateImport rq) (api_requests (new_effects w (submitAuthentication I srv w))) \<and>
            api_requests (new_effects w (submitAuthentication I srv w)) =
              (case getImport srv (importID (modalModel w)) of
                 Inl err \<Rightarrow> [GetImport (importID (modalModel w))]
               | Inr Importer \<Rightarrow> [GetImport (importID (modalModel w)),
                                  GetMailImportData (ID Importer) (password (modalModel w)) True]))"
proof -
  have "list_all (\<lambda>rq. \<not> is_CreateImport rq) (api_requests (new_effects w (submitAuthentication I srv w)))"
    if "importID (modalModel w) \<noteq> []"
    unfolding submitAuthentication_known_requests [OF that]
    by (simp add: is_CreateImport_def split: sum.splits)
  with reachable_known [OF assms] show ?thesis
    by (simp add: job_known_def submitAuthentication_known_requests)
qed

lemma form_edit_importID: "\<forall>m m'. form_edit m m' \<longrightarrow> importID m' = importID m"
proof (intro allI impI)
  fix m m' :: ImportMailModalModel
  assume "form_edit m m'"
  then have "importID m' = importID (m\<lparr>email := email m', password := password m', imap := imap m', port := port m',
             selectedPeriod := selectedPeriod m', payload := payload m',
             isPayloadInvalid := isPayloadInvalid m'\<rparr>)"
    unfolding form_edit_def by (rule arg_cong)
  then show "importID m' = importID m" by simp
qed

lemma example_known_reachable:
  "reachable example_imports (example_props None None) form_edit example_known"
proof -
  have init: "initialModalModel example_imports (example_props None None) = Some example_model"
    by (simp add: initialModalModel_def example_props_def example_model_def or_else_def current_def
        getDefaultImap_def getDefaultPort_def defaultPeriod_def)
  have "reachable example_imports (example_props None None) form_edit
      \<lparr>modalModel = example_model, cancelMemo = example_model, effects = []\<rparr>"
    by (rule reachable.opened [OF init])
  then have start: "reachable example_imports (example_props None None) form_edit example_start"
    by (simp add: example_start_def)
  have "form_edit (modalModel example_start)
      (example_model\<lparr>email := ''user@example.org'', password := ''secret''\<rparr>)"
    by (simp add: form_edit_def example_start_def example_model_def)
  from reachable.edited [OF start this]
  have "reachable example_imports (example_props None None) form_edit
      (typed ''user@example.org'' ''secret'' example_start)"
    by (simp add: typed_def setModalModel_def example_start_def)
  from reachable.looked_up [OF this, of example_server] show ?thesis
    by (simp add: example_known_def)
qed

text \<open>
  The wizard that learnt \<open>imp1\<close> from the authentication lookup.
\<close>

theorem importID_from_server_and_reused_witness:
  "importID (modalModel example_known) = ''imp1'' \<and>
   list_ex returns_ImporterID (effects example_known) \<and>
   api_requests (new_effects example_known (submitAuthentication example_imports example_server example_known)) =
     [GetImport ''imp1'', GetMailImportData ''imp1'' ''secret'' True]"
proof -
  have id: "importID (modalModel example_known) = ''imp1''"
    by (simp add: example_known_eq)
  from importID_from_server_and_reused [OF example_known_reachable form_edit_importID, of example_server] id
  show ?thesis
    by (simp add: opened_with_import_def current_def example_props_def truthy_def
        example_server_def example_importer_def example_known_eq)
qed

text \<open>
  Claim C6 as it is written fails in its second half: with \<open>importID\<close> set, submitting the
  authentication does request the folder listing of that import.
\<close>

theorem folder_listing_rerun_counterexample:
  "reachable example_imports (example_props None None) form_edit example_known \<and>
   importID (modalModel example_known) \<noteq> [] \<and>
   GetMailImportData ''imp1'' ''secret'' True \<in>
     set (api_requests (new_effects example_known (submitAuthentication example_imports example_server example_known)))"
proof -
  have "importID (modalModel example_known) \<noteq> []"
    by (simp add: example_known_eq)
  moreover have "api_requests (new_effects example_known (submitAuthentication example_imports example_server example_known)) =
     [GetImport ''imp1'', GetMailImportData ''imp1'' ''secret'' True]"
    by (simp add: submitAuthentication_def example_known_eq example_server_def example_importer_def
        new_effects_def api_requests_def moveToPrepareStep_def Let_def)
  ultimately show ?thesis
    using example_known_reachable by simp
qed

end
